theory Spec2Isabelle
  imports Complex_Main
begin

section \<open>Types (types.ts)\<close>

datatype GameMode = Classic | Time

datatype GameStatus = Idle | Playing | Paused | Gameover

text \<open>
  A \<^verbatim>\<open>Block\<close>. The fields \<^verbatim>\<open>id\<close> and \<^verbatim>\<open>value\<close> carry the suffix \<open>_b\<close>
  because \<open>id\<close> is a HOL constant and \<open>value\<close> a command. Numbers that the program
  only ever builds from integers are integers here; \<^verbatim>\<open>isRemoving?\<close> is optional.
\<close>

record Block =
  id_b :: string
  value_b :: int
  row :: int
  col :: int
  isRemoving :: "bool option"

section \<open>Configuration constants (constants.ts)\<close>

text \<open>
  The module \<^verbatim>\<open>constants.ts\<close> is imported by the code but its numbers are not part
  of the sources at hand, so every function takes the constants as a parameter \<open>k\<close>.
  Counts are naturals, coordinates and values are integers, the time limit is a
  number of seconds, held as the rational it denotes.
\<close>

record Constants =
  GRID_COLS :: nat
  GRID_ROWS_MAX :: int
  INITIAL_ROWS :: nat
  MIN_VALUE :: int
  MAX_VALUE :: int
  TARGET_SUM_MIN :: int
  TARGET_SUM_MAX :: int
  TIME_LIMIT :: rat

section \<open>Grid helpers (utils/gameUtils.ts)\<close>

text \<open>
  \<^verbatim>\<open>Math.random()\<close> is an input of the model. One call of \<^verbatim>\<open>createBlock\<close> consumes
  two random outcomes: the string that \<^verbatim>\<open>generateId()\<close> returns and the number in
  \<open>[0, 1)\<close> that the value is computed from. Arithmetic on that number is exact.
\<close>

type_synonym rnd_block = "string \<times> rat"

definition createBlock :: "Constants \<Rightarrow> rnd_block \<Rightarrow> int \<Rightarrow> int \<Rightarrow> Block" where
  "createBlock k rnd r c =
     \<lparr> id_b = fst rnd,
       value_b = \<lfloor>snd rnd * of_int (MAX_VALUE k - MIN_VALUE k + 1)\<rfloor> + MIN_VALUE k,
       row = r,
       col = c,
       isRemoving = None \<rparr>"

text \<open>
  The inner loop \<^verbatim>\<open>for (let c = 0; c < GRID_COLS; c++) push(createBlock(r, c))\<close>,
  shared by \<^verbatim>\<open>generateInitialBlocks\<close> and \<^verbatim>\<open>addNewRow\<close>. \<open>fresh c\<close> is the random
  outcome of the call made for column \<open>c\<close>; \<open>acc\<close> is the array pushed to.
\<close>

function pushRow :: "Constants \<Rightarrow> (nat \<Rightarrow> rnd_block) \<Rightarrow> int \<Rightarrow> nat \<Rightarrow> Block list \<Rightarrow> Block list" where
  "pushRow k fresh r c acc =
     (if c < GRID_COLS k
      then pushRow k fresh r (Suc c) (acc @ [createBlock k (fresh c) r (int c)])
      else acc)"
  by pat_completeness auto
termination
  by (relation "measure (\<lambda>(k, fresh, r, c, acc). GRID_COLS k - c)") auto

declare pushRow.simps [simp del]

text \<open>The outer loop of \<^verbatim>\<open>generateInitialBlocks\<close>: \<open>for (let r = 0; r < rows; r++)\<close>.\<close>

function pushRows :: "Constants \<Rightarrow> (nat \<Rightarrow> nat \<Rightarrow> rnd_block) \<Rightarrow> nat \<Rightarrow> nat \<Rightarrow> Block list \<Rightarrow> Block list" where
  "pushRows k fresh rows r acc =
     (if r < rows
      then pushRows k fresh rows (Suc r) (pushRow k (fresh r) (int r) 0 acc)
      else acc)"
  by pat_completeness auto
termination
  by (relation "measure (\<lambda>(k, fresh, rows, r, acc). rows - r)") auto

declare pushRows.simps [simp del]

definition generateInitialBlocks :: "Constants \<Rightarrow> (nat \<Rightarrow> nat \<Rightarrow> rnd_block) \<Rightarrow> nat \<Rightarrow> Block list" where
  "generateInitialBlocks k fresh rows = pushRows k fresh rows 0 []"

definition generateTargetSum :: "Constants \<Rightarrow> rat \<Rightarrow> int" where
  "generateTargetSum k rnd =
     \<lfloor>rnd * of_int (TARGET_SUM_MAX k - TARGET_SUM_MIN k + 1)\<rfloor> + TARGET_SUM_MIN k"

definition addNewRow :: "Constants \<Rightarrow> (nat \<Rightarrow> rnd_block) \<Rightarrow> Block list \<Rightarrow> Block list" where
  "addNewRow k fresh bs =
     (let shiftedBlocks = map (\<lambda>b. b\<lparr>row := row b + 1\<rparr>) bs;
          newRow = pushRow k fresh 0 0 []
      in shiftedBlocks @ newRow)"

definition checkGameOver :: "Block list \<Rightarrow> int \<Rightarrow> bool" where
  "checkGameOver bs maxRows = list_ex (\<lambda>b. row b \<ge> maxRows) bs"

section \<open>Double-precision arithmetic\<close>

text \<open>
  \<^verbatim>\<open>timeLeft\<close> is a JavaScript number, that is, an IEEE 754 binary64 value, and the
  countdown computes \<^verbatim>\<open>prev - 0.1\<close> in that arithmetic. A finite double is a rational
  number; the model keeps that rational and rounds the exact result of an operation to
  the nearest double, ties to the even significand: 53 significant bits, and the
  spacing of the binade of exponent \<open>-1022\<close> below it. \<^verbatim>\<open>NaN\<close> and the infinities are
  not values of the model; subtracting \<^verbatim>\<open>0.1\<close> from a finite double never produces them.
\<close>

definition pow2 :: "int \<Rightarrow> rat" where
  "pow2 e = (if 0 \<le> e then 2 ^ nat e else 1 / 2 ^ nat (- e))"

text \<open>Rounding to the nearest integer, ties to the even one.\<close>

definition roundHalfEven :: "rat \<Rightarrow> int" where
  "roundHalfEven y =
     (let f = \<lfloor>y\<rfloor>; d = y - of_int f
      in if d < 1 / 2 then f
         else if 1 / 2 < d then f + 1
         else if even f then f else f + 1)"

text \<open>The binary exponent of a positive number: the \<open>e\<close> with \<open>2^e \<le> x < 2^(e+1)\<close>.\<close>

function binade :: "rat \<Rightarrow> int" where
  "binade x =
     (if x \<le> 0 then 0
      else if 2 \<le> x then binade (x / 2) + 1
      else if x < 1 then binade (x * 2) - 1
      else 0)"
  by pat_completeness auto
termination
proof (relation "measure (\<lambda>x. nat (2 * \<lceil>1 / x\<rceil> + \<lfloor>x\<rfloor>))")
  show "wf (measure (\<lambda>x. nat (2 * \<lceil>1 / x\<rceil> + \<lfloor>x\<rfloor>)))" by simp
next
  fix x :: rat
  assume "\<not> x \<le> 0" and big: "2 \<le> x"
  then have pos: "0 < x" by simp
  have c1: "\<lceil>1 / (x / 2)\<rceil> = 1"
    using big by (intro ceiling_unique) (simp_all add: field_simps)
  have c2: "\<lceil>1 / x\<rceil> = 1"
    using big by (intro ceiling_unique) (simp_all add: field_simps)
  have "x / 2 \<le> x - 1" using big by simp
  then have "\<lfloor>x / 2\<rfloor> \<le> \<lfloor>x - 1\<rfloor>" by (rule floor_mono)
  then have f: "\<lfloor>x / 2\<rfloor> < \<lfloor>x\<rfloor>" by simp
  have "0 \<le> \<lfloor>x / 2\<rfloor>" using pos by simp
  with f have "nat (2 * \<lceil>1 / (x / 2)\<rceil> + \<lfloor>x / 2\<rfloor>) < nat (2 * \<lceil>1 / x\<rceil> + \<lfloor>x\<rfloor>)"
    unfolding c1 c2 by linarith
  then show "(x / 2, x) \<in> measure (\<lambda>x. nat (2 * \<lceil>1 / x\<rceil> + \<lfloor>x\<rfloor>))"
    by (simp only: in_measure)
next
  fix x :: rat
  assume "\<not> x \<le> 0" and "\<not> 2 \<le> x" and small: "x < 1"
  then have pos: "0 < x" by simp
  have fx: "\<lfloor>x\<rfloor> = 0" using pos small by (intro floor_unique) simp_all
  have c: "2 \<le> \<lceil>1 / x\<rceil>"
  proof -
    have "1 < 1 / x" using pos small by (simp add: field_simps)
    then have "1 < \<lceil>1 / x\<rceil>" by (simp add: less_ceiling_iff)
    then show ?thesis by simp
  qed
  show "(x * 2, x) \<in> measure (\<lambda>x. nat (2 * \<lceil>1 / x\<rceil> + \<lfloor>x\<rfloor>))"
  proof (cases "x < 1 / 2")
    case True
    then have f2: "\<lfloor>x * 2\<rfloor> = 0" using pos by (intro floor_unique) simp_all
    have "2 \<le> 1 / x" using True pos by (simp add: field_simps)
    then have "1 / (x * 2) \<le> 1 / x - 1" using pos by (simp add: field_simps)
    then have "\<lceil>1 / (x * 2)\<rceil> \<le> \<lceil>1 / x - 1\<rceil>" by (rule ceiling_mono)
    then have "\<lceil>1 / (x * 2)\<rceil> < \<lceil>1 / x\<rceil>" by simp
    with c have "nat (2 * \<lceil>1 / (x * 2)\<rceil> + \<lfloor>x * 2\<rfloor>) < nat (2 * \<lceil>1 / x\<rceil> + \<lfloor>x\<rfloor>)"
      unfolding fx f2 by linarith
    then show ?thesis by (simp only: in_measure)
  next
    case False
    then have f2: "\<lfloor>x * 2\<rfloor> = 1" using small by (intro floor_unique) simp_all
    have c3: "\<lceil>1 / (x * 2)\<rceil> = 1"
      using False pos by (intro ceiling_unique) (simp_all add: field_simps)
    from c have "nat (2 * \<lceil>1 / (x * 2)\<rceil> + \<lfloor>x * 2\<rfloor>) < nat (2 * \<lceil>1 / x\<rceil> + \<lfloor>x\<rfloor>)"
      unfolding fx f2 c3 by linarith
    then show ?thesis by (simp only: in_measure)
  qed
qed

declare binade.simps [simp del]

text \<open>
  The double nearest to a rational: the number is scaled by the spacing of its binade
  (of the lowest binade for a subnormal), rounded to an integer and scaled back.
\<close>

definition roundDouble :: "rat \<Rightarrow> rat" where
  "roundDouble x =
     (if x = 0 then 0
      else (let e = max (binade \<bar>x\<bar>) (- 1022);
                q = pow2 (e - 52)
            in of_int (roundHalfEven (x / q)) * q))"

text \<open>The operator \<^verbatim>\<open>-\<close> on two doubles.\<close>

definition jsSub :: "rat \<Rightarrow> rat \<Rightarrow> rat" where
  "jsSub a b = roundDouble (a - b)"

text \<open>The literal \<^verbatim>\<open>0.1\<close>: the double nearest to one tenth.\<close>

definition tenth :: rat where
  "tenth = roundDouble (1 / 10)"

section \<open>Application state (App.tsx)\<close>

text \<open>
  The state cells of the \<^verbatim>\<open>App\<close> component. \<open>highScore\<close> is the cell of
  \<^verbatim>\<open>useLocalStorage\<close>, which may hold \<^verbatim>\<open>undefined\<close> (\<open>None\<close>). \<open>pendingClears\<close> is not
  a cell of the component: it counts the callbacks that \<^verbatim>\<open>setTimeout\<close> has scheduled
  and that have not run yet.
\<close>

record GameState =
  blocks :: "Block list"
  targetSum :: int
  score :: int
  highScore :: "int option"
  status :: GameStatus
  mode :: GameMode
  timeLeft :: rat
  selectedIds :: "string list"
  isWrong :: bool
  pendingClears :: nat

text \<open>\<^verbatim>\<open>x || 0\<close> for a number that may be \<^verbatim>\<open>undefined\<close>: the falsy values give \<open>0\<close>.\<close>

fun orZero :: "int option \<Rightarrow> int" where
  "orZero None = 0"
| "orZero (Some v) = (if v = 0 then 0 else v)"

text \<open>\<^verbatim>\<open>Array.prototype.includes\<close> on a list of strings.\<close>

definition includes_arr :: "'a list \<Rightarrow> 'a \<Rightarrow> bool" where
  "includes_arr xs x = list_ex (\<lambda>y. y = x) xs"

definition initialState :: "Constants \<Rightarrow> int option \<Rightarrow> GameState" where
  "initialState k stored =
     \<lparr> blocks = [], targetSum = 0, score = 0, highScore = stored, status = Idle,
       mode = Classic, timeLeft = TIME_LIMIT k, selectedIds = [], isWrong = False,
       pendingClears = 0 \<rparr>"

definition startGame ::
  "Constants \<Rightarrow> (nat \<Rightarrow> nat \<Rightarrow> rnd_block) \<Rightarrow> rat \<Rightarrow> GameMode \<Rightarrow> GameState \<Rightarrow> GameState" where
  "startGame k fresh rndT selectedMode s =
     s\<lparr> blocks := generateInitialBlocks k fresh (INITIAL_ROWS k),
        targetSum := generateTargetSum k rndT,
        score := 0,
        status := Playing,
        mode := selectedMode,
        timeLeft := TIME_LIMIT k,
        selectedIds := [] \<rparr>"

definition resetGame :: "GameState \<Rightarrow> GameState" where
  "resetGame s = s\<lparr> status := Idle, blocks := [], selectedIds := [] \<rparr>"

definition handleBlockClick :: "string \<Rightarrow> GameState \<Rightarrow> GameState" where
  "handleBlockClick i s =
     (if status s \<noteq> Playing then s
      else s\<lparr> selectedIds :=
                (if includes_arr (selectedIds s) i
                 then filter (\<lambda>j. j \<noteq> i) (selectedIds s)
                 else selectedIds s @ [i]) \<rparr>)"

text \<open>
  \<^verbatim>\<open>handleSuccess\<close>. All its updates are applied in one batch; the values it closes
  over (\<^verbatim>\<open>selectedIds\<close>, \<^verbatim>\<open>mode\<close>, \<^verbatim>\<open>timeLeft\<close>, \<^verbatim>\<open>score\<close>, \<^verbatim>\<open>highScore\<close>) are those of
  the state in which the effect that calls it runs. \<open>fresh\<close> feeds the new row and
  \<open>rndT\<close> the new target.
\<close>

definition handleSuccess ::
  "Constants \<Rightarrow> (nat \<Rightarrow> rnd_block) \<Rightarrow> rat \<Rightarrow> GameState \<Rightarrow> GameState" where
  "handleSuccess k fresh rndT s =
     (let points = int (length (selectedIds s)) * 10
                     + (if mode s = Time then \<lfloor>timeLeft s\<rfloor> else 0);
          remaining = filter (\<lambda>b. \<not> includes_arr (selectedIds s) (id_b b)) (blocks s);
          withNewRow = addNewRow k fresh remaining
      in s\<lparr> score := score s + points,
            blocks := (if mode s = Classic then withNewRow else remaining),
            status := (if mode s = Classic \<and> checkGameOver withNewRow (GRID_ROWS_MAX k)
                       then Gameover else status s),
            selectedIds := [],
            targetSum := generateTargetSum k rndT,
            timeLeft := (if mode s = Time then TIME_LIMIT k else timeLeft s),
            highScore := (if score s + points > orZero (highScore s)
                          then Some (score s + points) else highScore s) \<rparr>)"

text \<open>
  The reduction of the selection-check effect:
  \<^verbatim>\<open>selectedIds.reduce((sum, id) => sum + (blocks.find(b => b.id === id)?.value || 0), 0)\<close>.
\<close>

definition currentSum :: "string list \<Rightarrow> Block list \<Rightarrow> int" where
  "currentSum ids bs =
     foldl (\<lambda>sum i. sum + orZero (map_option value_b (find (\<lambda>b. id_b b = i) bs))) 0 ids"

text \<open>
  The selection-check effect. It returns at once on an empty selection, calls
  \<^verbatim>\<open>handleSuccess\<close> when the sum meets the target, flags the selection as wrong and
  schedules the clearing callback when the sum exceeds it, and does nothing otherwise.
\<close>

definition selectionEffect ::
  "Constants \<Rightarrow> (nat \<Rightarrow> rnd_block) \<Rightarrow> rat \<Rightarrow> GameState \<Rightarrow> GameState" where
  "selectionEffect k fresh rndT s =
     (if length (selectedIds s) = 0 then s
      else if currentSum (selectedIds s) (blocks s) = targetSum s
        then handleSuccess k fresh rndT s
      else if currentSum (selectedIds s) (blocks s) > targetSum s
        then s\<lparr> isWrong := True, pendingClears := Suc (pendingClears s) \<rparr>
      else s)"

text \<open>The callback scheduled by the effect: \<^verbatim>\<open>setIsWrong(false); setSelectedIds([])\<close>.\<close>

definition wrongTimeout :: "GameState \<Rightarrow> GameState" where
  "wrongTimeout s =
     (if pendingClears s = 0 then s
      else s\<lparr> isWrong := False, selectedIds := [], pendingClears := pendingClears s - 1 \<rparr>)"

text \<open>
  The three branches of the effect on a non-empty selection, under the names the
  specification gives them.
\<close>

datatype Signal = Success | Overshoot | Pending

definition evaluate :: "string list \<Rightarrow> Block list \<Rightarrow> int \<Rightarrow> Signal" where
  "evaluate ids bs target =
     (if currentSum ids bs = target then Success
      else if currentSum ids bs > target then Overshoot
      else Pending)"

text \<open>
  The callback of \<^verbatim>\<open>setInterval(..., 100)\<close>. The interval exists only while the status
  is \<^verbatim>\<open>playing\<close> and the mode is \<^verbatim>\<open>time\<close> (the effect clears it otherwise), so a tick
  in any other state changes nothing. The decrement \<^verbatim>\<open>prev - 0.1\<close> is the subtraction
  of doubles.
\<close>

definition timerTick :: "Constants \<Rightarrow> (nat \<Rightarrow> rnd_block) \<Rightarrow> GameState \<Rightarrow> GameState" where
  "timerTick k fresh s =
     (if status s = Playing \<and> mode s = Time then
        (if timeLeft s \<le> 0 then
           (let withNewRow = addNewRow k fresh (blocks s)
            in s\<lparr> blocks := withNewRow,
                  status := (if checkGameOver withNewRow (GRID_ROWS_MAX k)
                             then Gameover else status s),
                  timeLeft := TIME_LIMIT k \<rparr>)
         else s\<lparr> timeLeft := jsSub (timeLeft s) tenth \<rparr>)
      else s)"

text \<open>A run of ticks, one list element (the random outcomes of that tick) per tick.\<close>

definition ticks :: "Constants \<Rightarrow> (nat \<Rightarrow> rnd_block) list \<Rightarrow> GameState \<Rightarrow> GameState" where
  "ticks k fs s = foldl (\<lambda>s' f. timerTick k f s') s fs"

text \<open>The effect that refills an empty grid while playing.\<close>

definition refillEffect :: "Constants \<Rightarrow> (nat \<Rightarrow> nat \<Rightarrow> rnd_block) \<Rightarrow> GameState \<Rightarrow> GameState" where
  "refillEffect k fresh s =
     (if status s = Playing \<and> length (blocks s) = 0
      then s\<lparr> blocks := generateInitialBlocks k fresh (INITIAL_ROWS k) \<rparr>
      else s)"

text \<open>The buttons whose handlers are written inline in the markup.\<close>

definition togglePause :: "GameState \<Rightarrow> GameState" where
  "togglePause s = s\<lparr> status := (if status s = Playing then Paused else Playing) \<rparr>"

definition resume :: "GameState \<Rightarrow> GameState" where
  "resume s = s\<lparr> status := Playing \<rparr>"

definition clearSelection :: "GameState \<Rightarrow> GameState" where
  "clearSelection s = s\<lparr> selectedIds := [] \<rparr>"

section \<open>The session as a transition system\<close>

text \<open>
  Every handler, effect and callback of the component is one event; the random
  outcomes an event consumes travel with it. \<open>Retry\<close> is the button of the game-over
  screen, \<^verbatim>\<open>startGame(mode)\<close> with the mode of the session that ended. The system allows
  every event in every state, which is more than the screens offer.
\<close>

datatype Event =
    Start GameMode "nat \<Rightarrow> nat \<Rightarrow> rnd_block" rat
  | Retry "nat \<Rightarrow> nat \<Rightarrow> rnd_block" rat
  | Reset
  | BlockClick string
  | SelectionCheck "nat \<Rightarrow> rnd_block" rat
  | WrongTimeout
  | Tick "nat \<Rightarrow> rnd_block"
  | Refill "nat \<Rightarrow> nat \<Rightarrow> rnd_block"
  | TogglePause
  | Resume
  | ClearSelection

fun step :: "Constants \<Rightarrow> Event \<Rightarrow> GameState \<Rightarrow> GameState" where
  "step k (Start m fresh rndT) s = startGame k fresh rndT m s"
| "step k (Retry fresh rndT) s = startGame k fresh rndT (mode s) s"
| "step k Reset s = resetGame s"
| "step k (BlockClick i) s = handleBlockClick i s"
| "step k (SelectionCheck fresh rndT) s = selectionEffect k fresh rndT s"
| "step k WrongTimeout s = wrongTimeout s"
| "step k (Tick fresh) s = timerTick k fresh s"
| "step k (Refill fresh) s = refillEffect k fresh s"
| "step k TogglePause s = togglePause s"
| "step k Resume s = resume s"
| "step k ClearSelection s = clearSelection s"

definition run :: "Constants \<Rightarrow> Event list \<Rightarrow> GameState \<Rightarrow> GameState" where
  "run k es s = foldl (\<lambda>s' e. step k e s') s es"

section \<open>Reference notions used in the statements\<close>

text \<open>
  The sum of the values of the blocks whose ids are in the selection, taken over the
  block list.
\<close>

definition selectedValueSum :: "string list \<Rightarrow> Block list \<Rightarrow> int" where
  "selectedValueSum ids bs = sum_list (map value_b (filter (\<lambda>b. id_b b \<in> set ids) bs))"

text \<open>How often an id occurs in a block list.\<close>

definition occurrences :: "string \<Rightarrow> Block list \<Rightarrow> nat" where
  "occurrences i bs = length (filter (\<lambda>b. id_b b = i) bs)"

text \<open>The values, in list order, of the blocks that carry a given id.\<close>

definition valuesOf :: "string \<Rightarrow> Block list \<Rightarrow> int list" where
  "valuesOf i bs = map value_b (filter (\<lambda>b. id_b b = i) bs)"

text \<open>The clock after \<open>n\<close> decrements, started at \<open>x\<close>.\<close>

definition decrements :: "nat \<Rightarrow> rat \<Rightarrow> rat" where
  "decrements n x = ((\<lambda>y. jsSub y tenth) ^^ n) x"

section \<open>Sample data\<close>

definition sampleConstants :: Constants where
  "sampleConstants =
     \<lparr> GRID_COLS = 2, GRID_ROWS_MAX = 3, INITIAL_ROWS = 1, MIN_VALUE = 1, MAX_VALUE = 9,
       TARGET_SUM_MIN = 10, TARGET_SUM_MAX = 20, TIME_LIMIT = 10 \<rparr>"

definition sampleFresh :: "nat \<Rightarrow> rnd_block" where
  "sampleFresh c = (if c = 0 then (''n0'', 0) else (''n1'', 1 / 2))"

definition mkBlock :: "string \<Rightarrow> int \<Rightarrow> int \<Rightarrow> int \<Rightarrow> Block" where
  "mkBlock i v r c = \<lparr> id_b = i, value_b = v, row = r, col = c, isRemoving = None \<rparr>"

text \<open>The grid of the specification's scenario: values 3, 5 and 2 at distinct ids.\<close>

definition sampleBlocks :: "Block list" where
  "sampleBlocks = [mkBlock ''a'' 3 0 0, mkBlock ''b'' 5 0 1, mkBlock ''c'' 2 1 0]"

definition sampleState :: "GameMode \<Rightarrow> string list \<Rightarrow> GameState" where
  "sampleState m ids =
     \<lparr> blocks = sampleBlocks, targetSum = 5, score = 0, highScore = Some 7, status = Playing,
       mode = m, timeLeft = 7 / 2, selectedIds = ids, isWrong = False, pendingClears = 0 \<rparr>"

text \<open>A grid in which two blocks carry the same id.\<close>

definition duplicateIdBlocks :: "Block list" where
  "duplicateIdBlocks = [mkBlock ''a'' 3 0 0, mkBlock ''a'' 2 0 1]"

text \<open>
  Random outcomes under which \<^verbatim>\<open>generateId()\<close> returns the same string for both
  blocks of a row.
\<close>

definition collidingFresh :: "nat \<Rightarrow> nat \<Rightarrow> rnd_block" where
  "collidingFresh r c = (''a'', if c = 0 then 2 / 9 else 1 / 9)"

text \<open>A time-mode session with one second left on the clock.\<close>

definition countdownState :: GameState where
  "countdownState = (sampleState Time [])\<lparr>timeLeft := 1\<rparr>"

section \<open>Auxiliary facts\<close>

subsection \<open>Array helpers and arithmetic\<close>

lemma floor_rat_numeral:
  "\<lfloor>(numeral a / numeral b :: rat)\<rfloor> = numeral a div numeral b"
  using floor_divide_of_int_eq [of "numeral a" "numeral b", where ?'a = rat] by simp

lemma includes_arr_iff: "includes_arr xs x \<longleftrightarrow> x \<in> set xs"
  by (auto simp: includes_arr_def list_ex_iff)

lemma checkGameOver_iff: "checkGameOver bs m \<longleftrightarrow> (\<exists>b \<in> set bs. row b \<ge> m)"
  by (simp add: checkGameOver_def list_ex_iff)

lemma filter_neq_removeAll: "filter (\<lambda>j. j \<noteq> i) xs = removeAll i xs"
  by (induction xs) auto

subsection \<open>The row loop\<close>

lemma pushRow_eq:
  "c \<le> GRID_COLS k \<Longrightarrow>
   pushRow k fresh r c acc = acc @ map (\<lambda>j. createBlock k (fresh j) r (int j)) [c ..< GRID_COLS k]"
proof (induction k fresh r c acc rule: pushRow.induct)
  case (1 k fresh r c acc)
  show ?case
  proof (cases "c < GRID_COLS k")
    case True
    then have "pushRow k fresh r c acc
        = pushRow k fresh r (Suc c) (acc @ [createBlock k (fresh c) r (int c)])"
      by (simp add: pushRow.simps [of k fresh r c acc])
    also have "\<dots> = (acc @ [createBlock k (fresh c) r (int c)])
        @ map (\<lambda>j. createBlock k (fresh j) r (int j)) [Suc c ..< GRID_COLS k]"
      using "1.IH" True by simp
    finally show ?thesis
      using True by (simp add: upt_conv_Cons)
  next
    case False
    then have "pushRow k fresh r c acc = acc"
      by (subst pushRow.simps) simp
    moreover from False "1.prems" have "[c ..< GRID_COLS k] = []" by simp
    ultimately show ?thesis by simp
  qed
qed

lemma length_pushRow: "length (pushRow k fresh r 0 []) = GRID_COLS k"
  by (simp add: pushRow_eq)

lemma nth_pushRow:
  "c < GRID_COLS k \<Longrightarrow> pushRow k fresh r 0 [] ! c = createBlock k (fresh c) r (int c)"
  by (simp add: pushRow_eq)

lemma row_pushRow:
  "b \<in> set (pushRow k fresh r 0 []) \<Longrightarrow> row b = r"
  by (auto simp: pushRow_eq createBlock_def)

lemma bottom_row_addNewRow:
  assumes "\<forall>b \<in> set bs. 0 \<le> row b"
  shows "length (filter (\<lambda>b. row b = 0) (addNewRow k fresh bs)) = GRID_COLS k"
proof -
  have old: "filter (\<lambda>b. row b = 0) (map (\<lambda>b. b\<lparr>row := row b + 1\<rparr>) bs) = []"
    using assms by (auto simp: filter_empty_conv)
  have new: "filter (\<lambda>b. row b = 0) (pushRow k fresh 0 0 []) = pushRow k fresh 0 0 []"
    by (simp add: filter_id_conv row_pushRow)
  show ?thesis
    by (simp add: addNewRow_def old new length_pushRow)
qed

lemma length_addNewRow: "length (addNewRow k fresh bs) = length bs + GRID_COLS k"
  by (simp add: addNewRow_def length_pushRow)

lemma nth_addNewRow_old:
  "i < length bs \<Longrightarrow> addNewRow k fresh bs ! i = (bs ! i)\<lparr>row := row (bs ! i) + 1\<rparr>"
  by (simp add: addNewRow_def nth_append)

lemma nth_addNewRow_new:
  "c < GRID_COLS k \<Longrightarrow>
   addNewRow k fresh bs ! (length bs + c) = createBlock k (fresh c) 0 (int c)"
  by (simp add: addNewRow_def nth_append nth_pushRow)

text \<open>Nothing in the generator keeps ids apart: equal random strings give equal ids.\<close>

lemma duplicateIdBlocks_generated:
  "generateInitialBlocks sampleConstants collidingFresh 1 = duplicateIdBlocks"
  by (simp add: generateInitialBlocks_def pushRows.simps pushRow.simps sampleConstants_def
        collidingFresh_def createBlock_def duplicateIdBlocks_def mkBlock_def)

subsection \<open>Counting the blocks of a selection\<close>

lemma length_filter_in_set:
  "finite A \<Longrightarrow>
   length (filter (\<lambda>b. id_b b \<in> A) bs) = (\<Sum>i\<in>A. occurrences i bs)"
proof (induction bs)
  case Nil
  then show ?case by (simp add: occurrences_def)
next
  case (Cons b bs)
  have "occurrences i (b # bs) = (if id_b b = i then 1 else 0) + occurrences i bs" for i
    by (simp add: occurrences_def)
  then have split: "(\<Sum>i\<in>A. occurrences i (b # bs))
      = (\<Sum>i\<in>A. (if id_b b = i then 1 else 0)) + (\<Sum>i\<in>A. occurrences i bs)"
    by (simp add: sum.distrib)
  have "(\<Sum>i\<in>A. (if id_b b = i then 1 else 0 :: nat)) = (if id_b b \<in> A then 1 else 0)"
    using Cons.prems by (simp add: sum.delta)
  with split Cons show ?case by simp
qed

lemma length_remaining:
  assumes "\<forall>i \<in> set ids. occurrences i bs = 1"
  shows "length (filter (\<lambda>b. \<not> includes_arr ids (id_b b)) bs) + card (set ids) = length bs"
proof -
  have "length (filter (\<lambda>b. id_b b \<in> set ids) bs) = (\<Sum>i\<in>set ids. occurrences i bs)"
    by (rule length_filter_in_set) simp
  also have "\<dots> = (\<Sum>i\<in>set ids. 1)"
    using assms by (intro sum.cong) simp_all
  finally have sel: "length (filter (\<lambda>b. id_b b \<in> set ids) bs) = card (set ids)"
    by simp
  have "length (filter (\<lambda>b. id_b b \<in> set ids) bs)
        + length (filter (\<lambda>b. \<not> id_b b \<in> set ids) bs) = length bs"
    by (rule sum_length_filter_compl)
  with sel show ?thesis
    by (simp add: includes_arr_iff)
qed

lemma sample_occurrences:
  "\<forall>i \<in> set [''b'']. occurrences i sampleBlocks = 1"
  "\<forall>i \<in> set [''a'', ''c'']. occurrences i sampleBlocks = 1"
  by (simp_all add: occurrences_def sampleBlocks_def mkBlock_def)

subsection \<open>The selection sum\<close>

lemma foldl_add_sum_list:
  "foldl (\<lambda>sum i. sum + g i) a ids = a + sum_list (map g ids)" for a :: int
  by (induction ids arbitrary: a) simp_all

lemma find_value_orZero:
  "orZero (map_option value_b (find (\<lambda>b. id_b b = i) bs))
     = (case valuesOf i bs of [] \<Rightarrow> 0 | v # _ \<Rightarrow> v)"
  by (induction bs) (simp_all add: valuesOf_def)

lemma currentSum_sum_list:
  "currentSum ids bs = sum_list (map (\<lambda>i. case valuesOf i bs of [] \<Rightarrow> 0 | v # _ \<Rightarrow> v) ids)"
  by (simp add: currentSum_def foldl_add_sum_list find_value_orZero)

lemma valuesOf_Nil_iff: "valuesOf i bs = [] \<longleftrightarrow> i \<notin> id_b ` set bs"
  by (auto simp: valuesOf_def filter_empty_conv)

lemma evaluate_cong:
  "currentSum ids bs1 = currentSum ids bs2 \<Longrightarrow> evaluate ids bs1 t = evaluate ids bs2 t"
  by (simp add: evaluate_def)

lemma currentSum_agree:
  assumes "\<forall>i \<in> set ids. valuesOf i bs1 = valuesOf i bs2"
  shows "currentSum ids bs1 = currentSum ids bs2"
proof -
  have "sum_list (map (\<lambda>i. case valuesOf i bs1 of [] \<Rightarrow> 0 | v # _ \<Rightarrow> v) ids)
      = sum_list (map (\<lambda>i. case valuesOf i bs2 of [] \<Rightarrow> 0 | v # _ \<Rightarrow> v) ids)"
    using assms by (intro arg_cong [where f = sum_list] map_cong) simp_all
  then show ?thesis by (simp only: currentSum_sum_list)
qed

lemma valuesOf_unselected:
  "id_b b \<notin> set ids \<Longrightarrow> \<forall>i \<in> set ids. valuesOf i (xs @ b # ys) = valuesOf i (xs @ ys)"
  by (auto simp: valuesOf_def)

lemma sum_filter_in_set:
  "finite A \<Longrightarrow>
   sum_list (map value_b (filter (\<lambda>b. id_b b \<in> A) bs)) = (\<Sum>i\<in>A. sum_list (valuesOf i bs))"
proof (induction bs)
  case Nil
  then show ?case by (simp add: valuesOf_def)
next
  case (Cons b bs)
  have "sum_list (valuesOf i (b # bs))
      = (if id_b b = i then value_b b else 0) + sum_list (valuesOf i bs)" for i
    by (simp add: valuesOf_def)
  then have split: "(\<Sum>i\<in>A. sum_list (valuesOf i (b # bs)))
      = (\<Sum>i\<in>A. (if id_b b = i then value_b b else 0)) + (\<Sum>i\<in>A. sum_list (valuesOf i bs))"
    by (simp add: sum.distrib)
  have "(\<Sum>i\<in>A. (if id_b b = i then value_b b else 0)) = (if id_b b \<in> A then value_b b else 0)"
    using Cons.prems by (simp add: sum.delta)
  with split Cons show ?case by simp
qed

lemma currentSum_selectedValueSum:
  assumes "distinct ids" and "\<forall>i \<in> set ids. occurrences i bs \<le> 1"
  shows "currentSum ids bs = selectedValueSum ids bs"
proof -
  have one: "(case valuesOf i bs of [] \<Rightarrow> 0 | v # _ \<Rightarrow> v) = sum_list (valuesOf i bs)"
    if "i \<in> set ids" for i
  proof -
    from that assms(2) have "length (valuesOf i bs) \<le> 1"
      by (simp add: occurrences_def valuesOf_def)
    then show ?thesis
      by (cases "valuesOf i bs") auto
  qed
  have "currentSum ids bs = sum_list (map (\<lambda>i. sum_list (valuesOf i bs)) ids)"
    unfolding currentSum_sum_list
    using one by (intro arg_cong [where f = sum_list] map_cong) simp_all
  also have "\<dots> = (\<Sum>i\<in>set ids. sum_list (valuesOf i bs))"
    using assms(1) by (simp add: sum_list_distinct_conv_sum_set)
  also have "\<dots> = selectedValueSum ids bs"
    by (simp add: selectedValueSum_def sum_filter_in_set)
  finally show ?thesis .
qed

subsection \<open>Evaluating double-precision subtraction\<close>

lemma floor_rat_neg_numeral:
  "\<lfloor>(- (numeral a / numeral b) :: rat)\<rfloor> = (- numeral a) div numeral b"
  using floor_divide_of_int_eq [of "- numeral a" "numeral b", where ?'a = rat] by simp

lemmas double_eval = roundDouble_def binade.simps pow2_def roundHalfEven_def Let_def
  floor_rat_numeral floor_rat_neg_numeral

text \<open>\<^verbatim>\<open>0.1\<close> is \<open>3602879701896397 \<times> 2^-55\<close>, a little more than one tenth.\<close>

lemma tenth_eq: "tenth = 3602879701896397 / 36028797018963968"
  unfolding tenth_def by (simp add: double_eval)

text \<open>
  The countdown from \<^verbatim>\<open>1.0\<close>, step by step: \<^verbatim>\<open>0.9\<close>, \<^verbatim>\<open>0.8\<close>, \<^verbatim>\<open>0.7000000000000001\<close>,
  \<^verbatim>\<open>0.6000000000000001\<close>, \<^verbatim>\<open>0.5000000000000001\<close>, \<^verbatim>\<open>0.40000000000000013\<close>,
  \<^verbatim>\<open>0.30000000000000016\<close>, \<^verbatim>\<open>0.20000000000000015\<close>, \<^verbatim>\<open>0.10000000000000014\<close>,
  \<^verbatim>\<open>1.3877787807814457e-16\<close> and then \<^verbatim>\<open>-0.09999999999999987\<close>.
\<close>

lemma countdown_steps:
  "jsSub 1 tenth = 8106479329266893 / 9007199254740992"
  "jsSub (8106479329266893 / 9007199254740992) tenth = 3602879701896397 / 4503599627370496"
  "jsSub (3602879701896397 / 4503599627370496) tenth = 6305039478318695 / 9007199254740992"
  "jsSub (6305039478318695 / 9007199254740992) tenth = 1351079888211149 / 2251799813685248"
  "jsSub (1351079888211149 / 2251799813685248) tenth = 4503599627370497 / 9007199254740992"
  "jsSub (4503599627370497 / 9007199254740992) tenth = 1801439850948199 / 4503599627370496"
  "jsSub (1801439850948199 / 4503599627370496) tenth = 2702159776422299 / 9007199254740992"
  "jsSub (2702159776422299 / 9007199254740992) tenth = 7205759403792799 / 36028797018963968"
  "jsSub (7205759403792799 / 36028797018963968) tenth = 1801439850948201 / 18014398509481984"
  "jsSub (1801439850948201 / 18014398509481984) tenth = 5 / 36028797018963968"
  "jsSub (5 / 36028797018963968) tenth = - (450359962737049 / 4503599627370496)"
  unfolding tenth_eq jsSub_def by (simp_all add: double_eval)

subsection \<open>The countdown\<close>

lemma decrements_0: "decrements 0 x = x"
  by (simp add: decrements_def)

lemma decrements_step:
  "decrements n x = v \<Longrightarrow> jsSub v tenth = w \<Longrightarrow> decrements (Suc n) x = w"
  by (simp add: decrements_def)

lemma decrements_from_one:
  "decrements 0 1 = 1"
  "decrements 1 1 = 8106479329266893 / 9007199254740992"
  "decrements 2 1 = 3602879701896397 / 4503599627370496"
  "decrements 3 1 = 6305039478318695 / 9007199254740992"
  "decrements 4 1 = 1351079888211149 / 2251799813685248"
  "decrements 5 1 = 4503599627370497 / 9007199254740992"
  "decrements 6 1 = 1801439850948199 / 4503599627370496"
  "decrements 7 1 = 2702159776422299 / 9007199254740992"
  "decrements 8 1 = 7205759403792799 / 36028797018963968"
  "decrements 9 1 = 1801439850948201 / 18014398509481984"
  "decrements 10 1 = 5 / 36028797018963968"
proof -
  show d0: "decrements 0 1 = 1" by (rule decrements_0)
  from decrements_step [OF d0 countdown_steps(1)]
  show d1: "decrements 1 1 = 8106479329266893 / 9007199254740992" by simp
  from decrements_step [OF d1 countdown_steps(2)]
  show d2: "decrements 2 1 = 3602879701896397 / 4503599627370496"
    by (simp add: numeral_2_eq_2)
  from decrements_step [OF d2 countdown_steps(3)]
  show d3: "decrements 3 1 = 6305039478318695 / 9007199254740992"
    by (simp add: eval_nat_numeral)
  from decrements_step [OF d3 countdown_steps(4)]
  show d4: "decrements 4 1 = 1351079888211149 / 2251799813685248"
    by (simp add: eval_nat_numeral)
  from decrements_step [OF d4 countdown_steps(5)]
  show d5: "decrements 5 1 = 4503599627370497 / 9007199254740992"
    by (simp add: eval_nat_numeral)
  from decrements_step [OF d5 countdown_steps(6)]
  show d6: "decrements 6 1 = 1801439850948199 / 4503599627370496"
    by (simp add: eval_nat_numeral)
  from decrements_step [OF d6 countdown_steps(7)]
  show d7: "decrements 7 1 = 2702159776422299 / 9007199254740992"
    by (simp add: eval_nat_numeral)
  from decrements_step [OF d7 countdown_steps(8)]
  show d8: "decrements 8 1 = 7205759403792799 / 36028797018963968"
    by (simp add: eval_nat_numeral)
  from decrements_step [OF d8 countdown_steps(9)]
  show d9: "decrements 9 1 = 1801439850948201 / 18014398509481984"
    by (simp add: eval_nat_numeral)
  from decrements_step [OF d9 countdown_steps(10)]
  show "decrements 10 1 = 5 / 36028797018963968"
    by (simp add: eval_nat_numeral)
qed

lemma decrements_from_one_pos: "j \<le> 10 \<Longrightarrow> 0 < decrements j 1"
proof -
  assume "j \<le> 10"
  then have "j = 0 \<or> j = 1 \<or> j = 2 \<or> j = 3 \<or> j = 4 \<or> j = 5 \<or> j = 6 \<or> j = 7
      \<or> j = 8 \<or> j = 9 \<or> j = 10"
    by arith
  moreover have "0 < decrements 0 1" "0 < decrements 1 1" "0 < decrements 2 1"
    "0 < decrements 3 1" "0 < decrements 4 1" "0 < decrements 5 1" "0 < decrements 6 1"
    "0 < decrements 7 1" "0 < decrements 8 1" "0 < decrements 9 1" "0 < decrements 10 1"
    unfolding decrements_from_one by simp_all
  ultimately show ?thesis
    by (elim disjE) (hypsubst, assumption)+
qed

lemma ticks_snoc: "ticks k (fs @ [f]) s = timerTick k f (ticks k fs s)"
  by (simp add: ticks_def)

lemma ticks_decrements:
  "status s = Playing \<Longrightarrow> mode s = Time \<Longrightarrow>
   (\<forall>i < length fs. 0 < decrements i (timeLeft s)) \<Longrightarrow>
   ticks k fs s = s\<lparr>timeLeft := decrements (length fs) (timeLeft s)\<rparr>"
proof (induction fs rule: rev_induct)
  case Nil
  then show ?case by (simp add: ticks_def decrements_0)
next
  case (snoc f fs)
  from snoc.prems(3) have earlier: "\<forall>i < length fs. 0 < decrements i (timeLeft s)"
    and now: "0 < decrements (length fs) (timeLeft s)"
    by simp_all
  have before: "ticks k fs s = s\<lparr>timeLeft := decrements (length fs) (timeLeft s)\<rparr>"
    using snoc.prems(1,2) earlier by (rule snoc.IH)
  have "decrements (Suc (length fs)) (timeLeft s)
      = jsSub (decrements (length fs) (timeLeft s)) tenth"
    by (simp add: decrements_def)
  then show ?case
    using snoc.prems(1,2) now by (simp add: ticks_snoc before timerTick_def)
qed

subsection \<open>The high score along a session\<close>

lemma step_highScore_le: "orZero (highScore s) \<le> orZero (highScore (step k e s))"
proof (cases e)
  case (SelectionCheck fresh rndT)
  then show ?thesis
    by (simp add: selectionEffect_def handleSuccess_def Let_def)
qed (simp_all add: startGame_def resetGame_def handleBlockClick_def wrongTimeout_def
       timerTick_def refillEffect_def togglePause_def resume_def clearSelection_def Let_def)

lemma run_highScore_le: "orZero (highScore s) \<le> orZero (highScore (run k es s))"
proof (induction es arbitrary: s)
  case Nil
  then show ?case by (simp add: run_def)
next
  case (Cons e es)
  have "orZero (highScore s) \<le> orZero (highScore (step k e s))"
    by (rule step_highScore_le)
  also have "\<dots> \<le> orZero (highScore (run k es (step k e s)))"
    by (rule Cons.IH)
  finally show ?case by (simp add: run_def)
qed

section \<open>The claims\<close>

subsection \<open>C1: the three outcomes of the selection check\<close>

text \<open>
  Claim C1, as it holds of the code. Let the selection be non-empty and free of
  repeated ids, and let no selected id occur more than once in the block list. Then
  the selection check signals Success if and only if the sum of the values of the
  blocks whose ids are selected equals the target, Overshoot if and only if that sum
  is strictly greater than the target, and Pending if and only if it is strictly
  smaller; the three signals are the constructors of one datatype, so exactly one of
  them is given. On Success the effect is \<^verbatim>\<open>handleSuccess\<close>; on Overshoot it marks
  the selection as wrong and schedules the callback which, when it runs, unmarks it
  and empties the selection; on Pending it leaves the state as it is.
\<close>

theorem selection_evaluation_signals:
  assumes "selectedIds s \<noteq> []"
    and "distinct (selectedIds s)"
    and "\<forall>i \<in> set (selectedIds s). occurrences i (blocks s) \<le> 1"
  shows "(evaluate (selectedIds s) (blocks s) (targetSum s) = Success
            \<longleftrightarrow> selectedValueSum (selectedIds s) (blocks s) = targetSum s)
       \<and> (evaluate (selectedIds s) (blocks s) (targetSum s) = Overshoot
            \<longleftrightarrow> selectedValueSum (selectedIds s) (blocks s) > targetSum s)
       \<and> (evaluate (selectedIds s) (blocks s) (targetSum s) = Pending
            \<longleftrightarrow> selectedValueSum (selectedIds s) (blocks s) < targetSum s)
       \<and> (evaluate (selectedIds s) (blocks s) (targetSum s) = Success \<longrightarrow>
            selectionEffect k fresh rndT s = handleSuccess k fresh rndT s)
       \<and> (evaluate (selectedIds s) (blocks s) (targetSum s) = Overshoot \<longrightarrow>
            selectionEffect k fresh rndT s
              = s\<lparr>isWrong := True, pendingClears := Suc (pendingClears s)\<rparr>
            \<and> wrongTimeout (selectionEffect k fresh rndT s)
              = s\<lparr>isWrong := False, selectedIds := []\<rparr>)
       \<and> (evaluate (selectedIds s) (blocks s) (targetSum s) = Pending \<longrightarrow>
            selectionEffect k fresh rndT s = s)"
proof -
  have eq: "currentSum (selectedIds s) (blocks s) = selectedValueSum (selectedIds s) (blocks s)"
    by (rule currentSum_selectedValueSum [OF assms(2,3)])
  have ne: "length (selectedIds s) \<noteq> 0"
    using assms(1) by simp
  have sig: "(evaluate (selectedIds s) (blocks s) (targetSum s) = Success
            \<longleftrightarrow> selectedValueSum (selectedIds s) (blocks s) = targetSum s)
       \<and> (evaluate (selectedIds s) (blocks s) (targetSum s) = Overshoot
            \<longleftrightarrow> selectedValueSum (selectedIds s) (blocks s) > targetSum s)
       \<and> (evaluate (selectedIds s) (blocks s) (targetSum s) = Pending
            \<longleftrightarrow> selectedValueSum (selectedIds s) (blocks s) < targetSum s)"
    unfolding eq [symmetric] by (simp add: evaluate_def)
  have suc: "evaluate (selectedIds s) (blocks s) (targetSum s) = Success \<longrightarrow>
            selectionEffect k fresh rndT s = handleSuccess k fresh rndT s"
    using ne by (simp add: evaluate_def selectionEffect_def split: if_splits)
  have ov: "evaluate (selectedIds s) (blocks s) (targetSum s) = Overshoot \<longrightarrow>
            selectionEffect k fresh rndT s
              = s\<lparr>isWrong := True, pendingClears := Suc (pendingClears s)\<rparr>
            \<and> wrongTimeout (selectionEffect k fresh rndT s)
              = s\<lparr>isWrong := False, selectedIds := []\<rparr>"
    using ne by (simp add: evaluate_def selectionEffect_def wrongTimeout_def split: if_splits)
  have pe: "evaluate (selectedIds s) (blocks s) (targetSum s) = Pending \<longrightarrow>
            selectionEffect k fresh rndT s = s"
    using ne by (simp add: evaluate_def selectionEffect_def split: if_splits)
  show ?thesis
    by (intro conjI sig [THEN conjunct1] sig [THEN conjunct2, THEN conjunct1]
          sig [THEN conjunct2, THEN conjunct2] suc ov pe)
qed

theorem selection_evaluation_signals_witness:
  "selectedIds (sampleState Classic [''a'', ''b'']) \<noteq> []
   \<and> distinct (selectedIds (sampleState Classic [''a'', ''b'']))
   \<and> list_all (\<lambda>i. occurrences i (blocks (sampleState Classic [''a'', ''b''])) \<le> 1)
         (selectedIds (sampleState Classic [''a'', ''b'']))
   \<and> selectedValueSum [''a'', ''b''] sampleBlocks = 8
   \<and> evaluate [''a'', ''b''] sampleBlocks 5 = Overshoot
   \<and> isWrong (selectionEffect sampleConstants sampleFresh 0 (sampleState Classic [''a'', ''b'']))
   \<and> selectedIds (wrongTimeout (selectionEffect sampleConstants sampleFresh 0
         (sampleState Classic [''a'', ''b'']))) = []"
proof -
  let ?s = "sampleState Classic [''a'', ''b'']"
  have h1: "selectedIds ?s \<noteq> []" and h2: "distinct (selectedIds ?s)"
    by (simp_all add: sampleState_def)
  have h3: "\<forall>i \<in> set (selectedIds ?s). occurrences i (blocks ?s) \<le> 1"
    by (simp add: sampleState_def occurrences_def sampleBlocks_def mkBlock_def)
  have v: "selectedValueSum [''a'', ''b''] sampleBlocks = 8"
    by (simp add: selectedValueSum_def sampleBlocks_def mkBlock_def)
  have sel: "selectedIds ?s = [''a'', ''b'']" and bl: "blocks ?s = sampleBlocks"
    and tg: "targetSum ?s = 5"
    by (simp_all add: sampleState_def)
  note t = selection_evaluation_signals [OF h1 h2 h3, of sampleConstants sampleFresh 0,
             unfolded sel bl tg]
  from t [THEN conjunct2, THEN conjunct1] v
  have ov: "evaluate [''a'', ''b''] sampleBlocks 5 = Overshoot" by simp
  note o = t [THEN conjunct2, THEN conjunct2, THEN conjunct2, THEN conjunct2, THEN conjunct1,
             THEN mp, OF ov]
  from o [THEN conjunct1]
  have w: "isWrong (selectionEffect sampleConstants sampleFresh 0 ?s)"
    by simp
  from o [THEN conjunct2]
  have c: "selectedIds (wrongTimeout (selectionEffect sampleConstants sampleFresh 0 ?s)) = []"
    by simp
  from h3 have h3': "list_all (\<lambda>i. occurrences i (blocks ?s) \<le> 1) (selectedIds ?s)"
    by (simp only: list_all_iff)
  from h1 h2 h3' v ov w c show ?thesis by (intro conjI)
qed

text \<open>
  Without the two side conditions the statement of C1 fails. The reduction adds, for
  each selected id, the value of the first block with that id. In a grid with two
  blocks of id \<open>a\<close> and values 3 and 2, the selection \<open>[a]\<close> covers blocks of total
  value 5, yet the check sees 3 and, for target 5, does not signal Success.
\<close>

theorem selection_sum_duplicate_id_counterexample:
  "\<not> (evaluate [''a''] duplicateIdBlocks 5 = Success
        \<longleftrightarrow> selectedValueSum [''a''] duplicateIdBlocks = 5)"
  by (simp add: evaluate_def currentSum_def selectedValueSum_def duplicateIdBlocks_def mkBlock_def)

subsection \<open>C2: adding a row\<close>

text \<open>
  Claim C2. For every block list, \<^verbatim>\<open>addNewRow\<close> returns a list that is longer by
  exactly \<open>GRID_COLS\<close>; the block at each old position keeps its id, value and
  column and has its row incremented by exactly 1; and the \<open>GRID_COLS\<close> positions
  after them hold the freshly created blocks, one per column, all at row 0. Nothing
  else is added and nothing is removed; when no old block has a negative row, the
  blocks at row 0 of the result number exactly \<open>GRID_COLS\<close>.
\<close>

theorem addNewRow_preserves_and_appends:
  "length (addNewRow k fresh bs) = length bs + GRID_COLS k
   \<and> (\<forall>i < length bs.
          id_b (addNewRow k fresh bs ! i) = id_b (bs ! i)
        \<and> value_b (addNewRow k fresh bs ! i) = value_b (bs ! i)
        \<and> col (addNewRow k fresh bs ! i) = col (bs ! i)
        \<and> row (addNewRow k fresh bs ! i) = row (bs ! i) + 1)
   \<and> (\<forall>c < GRID_COLS k.
          addNewRow k fresh bs ! (length bs + c) = createBlock k (fresh c) 0 (int c)
        \<and> row (addNewRow k fresh bs ! (length bs + c)) = 0)
   \<and> ((\<forall>b \<in> set bs. 0 \<le> row b) \<longrightarrow>
          length (filter (\<lambda>b. row b = 0) (addNewRow k fresh bs)) = GRID_COLS k)"
  by (simp add: length_addNewRow nth_addNewRow_old nth_addNewRow_new createBlock_def
        bottom_row_addNewRow)

theorem addNewRow_preserves_and_appends_witness:
  "length (addNewRow sampleConstants sampleFresh sampleBlocks) = 5
   \<and> id_b (addNewRow sampleConstants sampleFresh sampleBlocks ! 2) = ''c''
   \<and> value_b (addNewRow sampleConstants sampleFresh sampleBlocks ! 2) = 2
   \<and> col (addNewRow sampleConstants sampleFresh sampleBlocks ! 2) = 0
   \<and> row (addNewRow sampleConstants sampleFresh sampleBlocks ! 2) = 2
   \<and> addNewRow sampleConstants sampleFresh sampleBlocks ! 4 = mkBlock ''n1'' 5 0 1
   \<and> list_all (\<lambda>b. 0 \<le> row b) sampleBlocks
   \<and> length (filter (\<lambda>b. row b = 0) (addNewRow sampleConstants sampleFresh sampleBlocks)) = 2"
proof -
  note t = addNewRow_preserves_and_appends [of sampleConstants sampleFresh sampleBlocks]
  have len: "length sampleBlocks = 3" and cols: "GRID_COLS sampleConstants = 2"
    by (simp_all add: sampleBlocks_def sampleConstants_def)
  have b2: "sampleBlocks ! 2 = mkBlock ''c'' 2 1 0"
    by (simp add: sampleBlocks_def)
  have new: "createBlock sampleConstants (sampleFresh (Suc 0)) 0 1 = mkBlock ''n1'' 5 0 1"
    by (simp add: createBlock_def sampleConstants_def sampleFresh_def mkBlock_def
          floor_rat_numeral)
  from t [THEN conjunct1]
  have a: "length (addNewRow sampleConstants sampleFresh sampleBlocks) = 5"
    by (simp add: len cols)
  from t [THEN conjunct2, THEN conjunct1, THEN spec, of 2]
  have old: "id_b (addNewRow sampleConstants sampleFresh sampleBlocks ! 2) = ''c''
     \<and> value_b (addNewRow sampleConstants sampleFresh sampleBlocks ! 2) = 2
     \<and> col (addNewRow sampleConstants sampleFresh sampleBlocks ! 2) = 0
     \<and> row (addNewRow sampleConstants sampleFresh sampleBlocks ! 2) = 2"
    by (simp add: len b2 mkBlock_def)
  from t [THEN conjunct2, THEN conjunct2, THEN conjunct1, THEN spec, of 1]
  have fresh: "addNewRow sampleConstants sampleFresh sampleBlocks ! 4 = mkBlock ''n1'' 5 0 1"
    by (simp add: len cols new)
  have rows: "list_all (\<lambda>b. 0 \<le> row b) sampleBlocks"
    by (simp add: sampleBlocks_def mkBlock_def)
  then have "\<forall>b \<in> set sampleBlocks. 0 \<le> row b"
    by (simp only: list_all_iff)
  with t [THEN conjunct2, THEN conjunct2, THEN conjunct2]
  have bottom: "length (filter (\<lambda>b. row b = 0)
      (addNewRow sampleConstants sampleFresh sampleBlocks)) = 2"
    by (simp add: cols)
  from a old fresh rows bottom show ?thesis by (intro conjI) simp_all
qed

subsection \<open>C3: the grid after a success in classic mode\<close>

text \<open>
  Claim C3. Let the mode be classic and let every selected id occur exactly once in
  the block list. After \<^verbatim>\<open>handleSuccess\<close> the grid has
  (previous size - number of selected ids) + \<open>GRID_COLS\<close> blocks, where the
  number of selected ids counts each id once (it is the length of the selection when
  the selection has no repeated id); and if some block of the new grid has
  row \<open>\<ge> GRID_ROWS_MAX\<close>, the status is \<^verbatim>\<open>gameover\<close>.
\<close>

theorem handleSuccess_classic_grid:
  assumes "mode s = Classic"
    and "\<forall>i \<in> set (selectedIds s). occurrences i (blocks s) = 1"
  shows "int (length (blocks (handleSuccess k fresh rndT s)))
           = (int (length (blocks s)) - int (card (set (selectedIds s)))) + int (GRID_COLS k)
         \<and> (distinct (selectedIds s) \<longrightarrow>
              int (length (blocks (handleSuccess k fresh rndT s)))
                = (int (length (blocks s)) - int (length (selectedIds s))) + int (GRID_COLS k))
         \<and> ((\<exists>b \<in> set (blocks (handleSuccess k fresh rndT s)). row b \<ge> GRID_ROWS_MAX k) \<longrightarrow>
              status (handleSuccess k fresh rndT s) = Gameover)"
proof -
  have size: "int (length (blocks (handleSuccess k fresh rndT s)))
           = (int (length (blocks s)) - int (card (set (selectedIds s)))) + int (GRID_COLS k)"
    using length_remaining [OF assms(2)] assms(1)
    by (simp add: handleSuccess_def Let_def length_addNewRow)
  have over: "(\<exists>b \<in> set (blocks (handleSuccess k fresh rndT s)). row b \<ge> GRID_ROWS_MAX k) \<longrightarrow>
              status (handleSuccess k fresh rndT s) = Gameover"
    using assms(1) by (simp add: handleSuccess_def Let_def checkGameOver_iff)
  from size over show ?thesis
    by (simp add: distinct_card)
qed

theorem handleSuccess_classic_grid_witness:
  "mode (sampleState Classic [''b'']) = Classic
   \<and> list_all (\<lambda>i. occurrences i (blocks (sampleState Classic [''b''])) = 1)
         (selectedIds (sampleState Classic [''b'']))
   \<and> length (blocks (handleSuccess (sampleConstants\<lparr>GRID_ROWS_MAX := 2\<rparr>) sampleFresh 0
         (sampleState Classic [''b'']))) = 4
   \<and> status (handleSuccess (sampleConstants\<lparr>GRID_ROWS_MAX := 2\<rparr>) sampleFresh 0
         (sampleState Classic [''b''])) = Gameover"
proof -
  have m: "mode (sampleState Classic [''b'']) = Classic"
    by (simp add: sampleState_def)
  have o: "\<forall>i \<in> set (selectedIds (sampleState Classic [''b''])).
         occurrences i (blocks (sampleState Classic [''b''])) = 1"
    using sample_occurrences(1) by (simp add: sampleState_def)
  have r: "row (blocks (handleSuccess (sampleConstants\<lparr>GRID_ROWS_MAX := 2\<rparr>) sampleFresh 0
         (sampleState Classic [''b''])) ! 1) = 2"
    by (simp add: handleSuccess_def sampleState_def sampleBlocks_def mkBlock_def
          includes_arr_def addNewRow_def Let_def)
  note t = handleSuccess_classic_grid [OF m o, of "sampleConstants\<lparr>GRID_ROWS_MAX := 2\<rparr>" sampleFresh 0]
  from t have len: "length (blocks (handleSuccess (sampleConstants\<lparr>GRID_ROWS_MAX := 2\<rparr>) sampleFresh 0
         (sampleState Classic [''b'']))) = 4"
    by (simp add: sampleState_def sampleBlocks_def sampleConstants_def)
  then have "blocks (handleSuccess (sampleConstants\<lparr>GRID_ROWS_MAX := 2\<rparr>) sampleFresh 0
         (sampleState Classic [''b''])) ! 1 \<in> set (blocks (handleSuccess
           (sampleConstants\<lparr>GRID_ROWS_MAX := 2\<rparr>) sampleFresh 0 (sampleState Classic [''b''])))"
    by (intro nth_mem) simp
  with r have "\<exists>b \<in> set (blocks (handleSuccess (sampleConstants\<lparr>GRID_ROWS_MAX := 2\<rparr>) sampleFresh 0
         (sampleState Classic [''b'']))). row b \<ge> GRID_ROWS_MAX (sampleConstants\<lparr>GRID_ROWS_MAX := 2\<rparr>)"
    by (intro bexI) simp_all
  with t have "status (handleSuccess (sampleConstants\<lparr>GRID_ROWS_MAX := 2\<rparr>) sampleFresh 0
         (sampleState Classic [''b''])) = Gameover"
    by blast
  moreover from o
  have "list_all (\<lambda>i. occurrences i (blocks (sampleState Classic [''b''])) = 1)
         (selectedIds (sampleState Classic [''b'']))"
    by (simp only: list_all_iff)
  ultimately show ?thesis using m len by (intro conjI)
qed

subsection \<open>C4: the countdown of time mode\<close>

text \<open>
  Claim C4, as it holds of the code. In time mode while playing, a tick that finds
  \<open>timeLeft > 0\<close> replaces it by the double-precision difference
  \<^verbatim>\<open>timeLeft - 0.1\<close> and changes nothing else, also when that difference is \<open>\<le> 0\<close>.
  A tick that finds \<open>timeLeft \<le> 0\<close> adds a row to the current grid, sets the status
  to \<^verbatim>\<open>gameover\<close> if the result overflows, and resets \<open>timeLeft\<close> to \<open>TIME_LIMIT\<close>.
  In particular, from \<open>timeLeft = 1.0\<close> the first ten ticks are ten decrements, each
  leaving a positive value and the grid alone, the tenth leaving
  \<open>5 \<times> 2^-55\<close> (\<^verbatim>\<open>1.3877787807814457e-16\<close>); the eleventh tick only decrements, to
  \<^verbatim>\<open>-0.09999999999999987\<close>; and the twelfth tick adds the row and resets the clock.
\<close>

theorem timerTick_countdown:
  assumes "status s = Playing" and "mode s = Time"
  shows "(0 < timeLeft s \<longrightarrow> timerTick k fresh s = s\<lparr>timeLeft := jsSub (timeLeft s) tenth\<rparr>)
       \<and> (timeLeft s \<le> 0 \<longrightarrow>
            timerTick k fresh s
              = s\<lparr>blocks := addNewRow k fresh (blocks s),
                   status := (if \<exists>b \<in> set (addNewRow k fresh (blocks s)). row b \<ge> GRID_ROWS_MAX k
                              then Gameover else Playing),
                   timeLeft := TIME_LIMIT k\<rparr>)
       \<and> (timeLeft s = 1 \<and> length fs = 10 \<longrightarrow>
            (\<forall>j \<le> 10. ticks k (take j fs) s = s\<lparr>timeLeft := decrements j 1\<rparr>
                      \<and> 0 < decrements j 1)
            \<and> ticks k fs s = s\<lparr>timeLeft := 5 / 36028797018963968\<rparr>
            \<and> timerTick k fresh (ticks k fs s)
                = s\<lparr>timeLeft := - (450359962737049 / 4503599627370496)\<rparr>
            \<and> timerTick k fresh' (timerTick k fresh (ticks k fs s))
                = s\<lparr>blocks := addNewRow k fresh' (blocks s),
                     status := (if \<exists>b \<in> set (addNewRow k fresh' (blocks s)). row b \<ge> GRID_ROWS_MAX k
                                then Gameover else Playing),
                     timeLeft := TIME_LIMIT k\<rparr>)"
proof -
  have dec: "timerTick k f s' = s'\<lparr>timeLeft := jsSub (timeLeft s') tenth\<rparr>"
    if "status s' = Playing" "mode s' = Time" "0 < timeLeft s'" for s' f
    using that by (simp add: timerTick_def)
  have add: "timerTick k f s'
              = s'\<lparr>blocks := addNewRow k f (blocks s'),
                   status := (if \<exists>b \<in> set (addNewRow k f (blocks s')). row b \<ge> GRID_ROWS_MAX k
                              then Gameover else Playing),
                   timeLeft := TIME_LIMIT k\<rparr>"
    if "status s' = Playing" "mode s' = Time" "timeLeft s' \<le> 0" for s' f
    using that by (simp add: timerTick_def Let_def checkGameOver_iff)
  have dec0: "0 < timeLeft s \<longrightarrow> timerTick k fresh s = s\<lparr>timeLeft := jsSub (timeLeft s) tenth\<rparr>"
    by (rule impI) (rule dec [OF assms])
  have add0: "timeLeft s \<le> 0 \<longrightarrow>
            timerTick k fresh s
              = s\<lparr>blocks := addNewRow k fresh (blocks s),
                   status := (if \<exists>b \<in> set (addNewRow k fresh (blocks s)). row b \<ge> GRID_ROWS_MAX k
                              then Gameover else Playing),
                   timeLeft := TIME_LIMIT k\<rparr>"
    by (rule impI) (rule add [OF assms])
  have run: "(\<forall>j \<le> 10. ticks k (take j fs) s = s\<lparr>timeLeft := decrements j 1\<rparr>
                      \<and> 0 < decrements j 1)
            \<and> ticks k fs s = s\<lparr>timeLeft := 5 / 36028797018963968\<rparr>
            \<and> timerTick k fresh (ticks k fs s)
                = s\<lparr>timeLeft := - (450359962737049 / 4503599627370496)\<rparr>
            \<and> timerTick k fresh' (timerTick k fresh (ticks k fs s))
                = s\<lparr>blocks := addNewRow k fresh' (blocks s),
                     status := (if \<exists>b \<in> set (addNewRow k fresh' (blocks s)). row b \<ge> GRID_ROWS_MAX k
                                then Gameover else Playing),
                     timeLeft := TIME_LIMIT k\<rparr>"
    if one: "timeLeft s = 1" and len: "length fs = 10"
  proof -
    have steps: "ticks k (take j fs) s = s\<lparr>timeLeft := decrements j 1\<rparr>" if "j \<le> 10" for j
    proof -
      from that len have l: "length (take j fs) = j" by simp
      have "\<forall>i < length (take j fs). 0 < decrements i (timeLeft s)"
        unfolding l one using that by (simp add: decrements_from_one_pos)
      from ticks_decrements [OF assms this, of k] show ?thesis
        by (simp only: l one)
    qed
    from steps [of 10] len
    have ten: "ticks k fs s = s\<lparr>timeLeft := 5 / 36028797018963968\<rparr>"
      by (simp add: decrements_from_one)
    have eleven: "timerTick k fresh (ticks k fs s)
        = s\<lparr>timeLeft := - (450359962737049 / 4503599627370496)\<rparr>"
      unfolding ten
      using assms dec [of "s\<lparr>timeLeft := 5 / 36028797018963968\<rparr>" fresh]
      by (simp add: countdown_steps)
    have twelve: "timerTick k fresh' (timerTick k fresh (ticks k fs s))
                = s\<lparr>blocks := addNewRow k fresh' (blocks s),
                     status := (if \<exists>b \<in> set (addNewRow k fresh' (blocks s)). row b \<ge> GRID_ROWS_MAX k
                                then Gameover else Playing),
                     timeLeft := TIME_LIMIT k\<rparr>"
      unfolding eleven
      using assms add [of "s\<lparr>timeLeft := - (450359962737049 / 4503599627370496)\<rparr>" fresh']
      by simp
    from steps decrements_from_one_pos ten eleven twelve show ?thesis
      by simp
  qed
  have run0: "timeLeft s = 1 \<and> length fs = 10 \<longrightarrow>
            (\<forall>j \<le> 10. ticks k (take j fs) s = s\<lparr>timeLeft := decrements j 1\<rparr>
                      \<and> 0 < decrements j 1)
            \<and> ticks k fs s = s\<lparr>timeLeft := 5 / 36028797018963968\<rparr>
            \<and> timerTick k fresh (ticks k fs s)
                = s\<lparr>timeLeft := - (450359962737049 / 4503599627370496)\<rparr>
            \<and> timerTick k fresh' (timerTick k fresh (ticks k fs s))
                = s\<lparr>blocks := addNewRow k fresh' (blocks s),
                     status := (if \<exists>b \<in> set (addNewRow k fresh' (blocks s)). row b \<ge> GRID_ROWS_MAX k
                                then Gameover else Playing),
                     timeLeft := TIME_LIMIT k\<rparr>"
    by (rule impI, erule conjE, rule run)
  show ?thesis
    by (intro conjI dec0 add0 run0)
qed

theorem timerTick_countdown_witness:
  "status countdownState = Playing \<and> mode countdownState = Time
   \<and> timeLeft (timerTick sampleConstants sampleFresh countdownState)
       = 8106479329266893 / 9007199254740992
   \<and> timeLeft (ticks sampleConstants (replicate 10 sampleFresh) countdownState)
       = 5 / 36028797018963968
   \<and> blocks (ticks sampleConstants (replicate 10 sampleFresh) countdownState) = sampleBlocks
   \<and> timeLeft (timerTick sampleConstants sampleFresh
         (ticks sampleConstants (replicate 10 sampleFresh) countdownState))
       = - (450359962737049 / 4503599627370496)
   \<and> blocks (timerTick sampleConstants sampleFresh
         (ticks sampleConstants (replicate 10 sampleFresh) countdownState)) = sampleBlocks
   \<and> timeLeft (timerTick sampleConstants sampleFresh (timerTick sampleConstants sampleFresh
         (ticks sampleConstants (replicate 10 sampleFresh) countdownState))) = 10
   \<and> length (blocks (timerTick sampleConstants sampleFresh (timerTick sampleConstants sampleFresh
         (ticks sampleConstants (replicate 10 sampleFresh) countdownState)))) = 5"
proof -
  have st: "status countdownState = Playing" and md: "mode countdownState = Time"
    and tl: "timeLeft countdownState = 1" and bl: "blocks countdownState = sampleBlocks"
    by (simp_all add: countdownState_def sampleState_def)
  note t = timerTick_countdown [OF st md, of sampleConstants sampleFresh
             "replicate 10 sampleFresh" sampleFresh]
  from t [THEN conjunct1] tl
  have a: "timeLeft (timerTick sampleConstants sampleFresh countdownState)
      = 8106479329266893 / 9007199254740992"
    by (simp add: countdown_steps)
  have pre: "timeLeft countdownState = 1 \<and> length (replicate 10 sampleFresh) = 10"
    using tl by simp
  note r = t [THEN conjunct2, THEN conjunct2, THEN mp, OF pre]
  note ten = r [THEN conjunct2, THEN conjunct1]
  note eleven = r [THEN conjunct2, THEN conjunct2, THEN conjunct1]
  note twelve = r [THEN conjunct2, THEN conjunct2, THEN conjunct2]
  have b: "timeLeft (timerTick sampleConstants sampleFresh (timerTick sampleConstants sampleFresh
         (ticks sampleConstants (replicate 10 sampleFresh) countdownState))) = 10"
    unfolding twelve by (simp add: sampleConstants_def)
  have c: "length (blocks (timerTick sampleConstants sampleFresh
         (timerTick sampleConstants sampleFresh
         (ticks sampleConstants (replicate 10 sampleFresh) countdownState)))) = 5"
    unfolding twelve by (simp add: length_addNewRow bl sampleBlocks_def sampleConstants_def)
  have d: "timeLeft (ticks sampleConstants (replicate 10 sampleFresh) countdownState)
       = 5 / 36028797018963968"
    and e: "blocks (ticks sampleConstants (replicate 10 sampleFresh) countdownState) = sampleBlocks"
    unfolding ten by (simp_all add: bl)
  have f: "timeLeft (timerTick sampleConstants sampleFresh
         (ticks sampleConstants (replicate 10 sampleFresh) countdownState))
       = - (450359962737049 / 4503599627370496)"
    and g: "blocks (timerTick sampleConstants sampleFresh
         (ticks sampleConstants (replicate 10 sampleFresh) countdownState)) = sampleBlocks"
    unfolding eleven by (simp_all add: bl)
  from st md a d e f g b c show ?thesis
    by (intro conjI)
qed

text \<open>
  The tick at which \<open>timeLeft\<close> drops to \<open>\<le> 0\<close> does not add the row. After ten ticks
  from \<open>timeLeft = 1.0\<close> the clock holds \<open>5 \<times> 2^-55\<close>, which is positive; the
  eleventh tick is the one whose decrement is \<open>\<le> 0\<close>, and after it the grid is not
  the grid with a row added and the clock is not back at \<open>TIME_LIMIT\<close>: the guard
  of the callback tests the value before the decrement.
\<close>

theorem eleventh_tick_no_row_counterexample:
  "\<not> (jsSub (timeLeft (ticks sampleConstants (replicate 10 sampleFresh) countdownState)) tenth \<le> 0
        \<longrightarrow>
        blocks (timerTick sampleConstants sampleFresh
            (ticks sampleConstants (replicate 10 sampleFresh) countdownState))
          = addNewRow sampleConstants sampleFresh
              (blocks (ticks sampleConstants (replicate 10 sampleFresh) countdownState))
        \<and> timeLeft (timerTick sampleConstants sampleFresh
            (ticks sampleConstants (replicate 10 sampleFresh) countdownState))
          = TIME_LIMIT sampleConstants)"
proof -
  have st: "status countdownState = Playing" and md: "mode countdownState = Time"
    and tl: "timeLeft countdownState = 1"
    by (simp_all add: countdownState_def sampleState_def)
  have "\<forall>i < length (replicate 10 sampleFresh). 0 < decrements i (timeLeft countdownState)"
    unfolding tl by (simp add: decrements_from_one_pos)
  from ticks_decrements [OF st md this, of sampleConstants]
  have ten: "ticks sampleConstants (replicate 10 sampleFresh) countdownState
      = countdownState\<lparr>timeLeft := 5 / 36028797018963968\<rparr>"
    by (simp add: tl decrements_from_one)
  have eleven: "timerTick sampleConstants sampleFresh
        (countdownState\<lparr>timeLeft := 5 / 36028797018963968\<rparr>)
      = countdownState\<lparr>timeLeft := - (450359962737049 / 4503599627370496)\<rparr>"
    using st md by (simp add: timerTick_def countdown_steps)
  have lim: "TIME_LIMIT sampleConstants = 10"
    by (simp add: sampleConstants_def)
  show ?thesis
    unfolding ten eleven lim by (simp add: countdown_steps)
qed

subsection \<open>C5: the grid after a success in time mode\<close>

text \<open>
  Claim C5. Let the mode be time and let every selected id occur exactly once in the
  block list. After \<^verbatim>\<open>handleSuccess\<close> the grid has
  previous size - number of selected ids blocks (no row is added), where the number
  of selected ids counts each id once (it is the length of the selection when the
  selection has no repeated id), and \<open>timeLeft\<close> is \<open>TIME_LIMIT\<close>.
\<close>

theorem handleSuccess_time_grid:
  assumes "mode s = Time"
    and "\<forall>i \<in> set (selectedIds s). occurrences i (blocks s) = 1"
  shows "int (length (blocks (handleSuccess k fresh rndT s)))
           = int (length (blocks s)) - int (card (set (selectedIds s)))
         \<and> (distinct (selectedIds s) \<longrightarrow>
              int (length (blocks (handleSuccess k fresh rndT s)))
                = int (length (blocks s)) - int (length (selectedIds s)))
         \<and> timeLeft (handleSuccess k fresh rndT s) = TIME_LIMIT k"
proof -
  have size: "int (length (blocks (handleSuccess k fresh rndT s)))
           = int (length (blocks s)) - int (card (set (selectedIds s)))"
    using length_remaining [OF assms(2)] assms(1)
    by (simp add: handleSuccess_def Let_def)
  have "timeLeft (handleSuccess k fresh rndT s) = TIME_LIMIT k"
    using assms(1) by (simp add: handleSuccess_def Let_def)
  with size show ?thesis
    by (simp add: distinct_card)
qed

theorem handleSuccess_time_grid_witness:
  "mode (sampleState Time [''a'', ''c'']) = Time
   \<and> list_all (\<lambda>i. occurrences i (blocks (sampleState Time [''a'', ''c''])) = 1)
         (selectedIds (sampleState Time [''a'', ''c'']))
   \<and> length (blocks (handleSuccess sampleConstants sampleFresh 0 (sampleState Time [''a'', ''c'']))) = 1
   \<and> timeLeft (handleSuccess sampleConstants sampleFresh 0 (sampleState Time [''a'', ''c''])) = 10"
proof -
  have m: "mode (sampleState Time [''a'', ''c'']) = Time"
    by (simp add: sampleState_def)
  have o: "\<forall>i \<in> set (selectedIds (sampleState Time [''a'', ''c''])).
         occurrences i (blocks (sampleState Time [''a'', ''c''])) = 1"
    using sample_occurrences(2) by (simp add: sampleState_def)
  note t = handleSuccess_time_grid [OF m o, of sampleConstants sampleFresh 0]
  from t have "length (blocks (handleSuccess sampleConstants sampleFresh 0
      (sampleState Time [''a'', ''c'']))) = 1"
    by (simp add: sampleState_def sampleBlocks_def)
  moreover from t have "timeLeft (handleSuccess sampleConstants sampleFresh 0
      (sampleState Time [''a'', ''c''])) = 10"
    by (simp add: sampleConstants_def)
  moreover from o
  have "list_all (\<lambda>i. occurrences i (blocks (sampleState Time [''a'', ''c''])) = 1)
         (selectedIds (sampleState Time [''a'', ''c'']))"
    by (simp only: list_all_iff)
  ultimately show ?thesis using m by (intro conjI)
qed

subsection \<open>C6: points, score and high score\<close>

text \<open>
  Claim C6. On every success the new score is the previous score plus
  \<^verbatim>\<open>selectedIds.length * 10\<close>, plus the floor of \<open>timeLeft\<close> in time mode and plus 0
  in classic mode; the high score becomes the new score when the new score is
  strictly greater than the stored high score (\<^verbatim>\<open>undefined\<close> counting as 0), and is
  left as it is otherwise.
\<close>

theorem handleSuccess_scoring:
  "score (handleSuccess k fresh rndT s)
      = score s + (int (length (selectedIds s)) * 10
                   + (case mode s of Time \<Rightarrow> \<lfloor>timeLeft s\<rfloor> | Classic \<Rightarrow> 0))
   \<and> (score (handleSuccess k fresh rndT s) > orZero (highScore s) \<longrightarrow>
        highScore (handleSuccess k fresh rndT s) = Some (score (handleSuccess k fresh rndT s)))
   \<and> (\<not> score (handleSuccess k fresh rndT s) > orZero (highScore s) \<longrightarrow>
        highScore (handleSuccess k fresh rndT s) = highScore s)"
  by (simp add: handleSuccess_def Let_def split: GameMode.split)

theorem handleSuccess_scoring_witness:
  "score (handleSuccess sampleConstants sampleFresh 0 (sampleState Time [''a'', ''c''])) = 23
   \<and> highScore (handleSuccess sampleConstants sampleFresh 0 (sampleState Time [''a'', ''c''])) = Some 23
   \<and> score (handleSuccess sampleConstants sampleFresh 0 (sampleState Classic [''b''])) = 10
   \<and> highScore (handleSuccess sampleConstants sampleFresh 0 (sampleState Classic [''b''])) = Some 10
   \<and> highScore (handleSuccess sampleConstants sampleFresh 0
        ((sampleState Classic [''b''])\<lparr>highScore := Some 10\<rparr>)) = Some 10"
  using handleSuccess_scoring [of sampleConstants sampleFresh 0 "sampleState Time [''a'', ''c'']"]
        handleSuccess_scoring [of sampleConstants sampleFresh 0 "sampleState Classic [''b'']"]
        handleSuccess_scoring [of sampleConstants sampleFresh 0
          "(sampleState Classic [''b''])\<lparr>highScore := Some 10\<rparr>"]
  by (simp add: sampleState_def floor_rat_numeral)

subsection \<open>C7: the high score never decreases\<close>

text \<open>
  Claim C7. For every state, reachable or not, and every event of the session (start,
  retry, reset, block click, selection check with its success, the clearing callback,
  tick, refill, pause, resume, clearing the selection), the high score after the
  event is greater than or equal to the high score before it; hence the same holds
  after any sequence of events. The high score is read as the code reads it, with
  \<^verbatim>\<open>undefined\<close> counting as 0.
\<close>

theorem highScore_never_decreases:
  "orZero (highScore s) \<le> orZero (highScore (step k e s))
   \<and> orZero (highScore s) \<le> orZero (highScore (run k es s))"
  by (simp add: step_highScore_le run_highScore_le)

theorem highScore_never_decreases_witness:
  "orZero (highScore (sampleState Classic [''b'']))
     \<le> orZero (highScore (step sampleConstants (SelectionCheck sampleFresh 0)
           (sampleState Classic [''b''])))
   \<and> highScore (sampleState Classic [''b'']) = Some 7
   \<and> highScore (step sampleConstants (SelectionCheck sampleFresh 0)
         (sampleState Classic [''b''])) = Some 10
   \<and> highScore (run sampleConstants [BlockClick ''b'', SelectionCheck sampleFresh 0, Reset]
         (sampleState Classic [])) = Some 10"
proof -
  note t = highScore_never_decreases [of "sampleState Classic [''b'']" sampleConstants
             "SelectionCheck sampleFresh 0" "[]"]
  have before: "highScore (sampleState Classic [''b'']) = Some 7"
    by (simp add: sampleState_def)
  have sum: "currentSum [''b''] sampleBlocks = 5"
    by (simp add: currentSum_def sampleBlocks_def mkBlock_def)
  have after: "highScore (step sampleConstants (SelectionCheck sampleFresh 0)
         (sampleState Classic [''b''])) = Some 10"
    by (simp add: selectionEffect_def handleSuccess_def sampleState_def sum Let_def)
  have click: "handleBlockClick ''b'' (sampleState Classic []) = sampleState Classic [''b'']"
    by (simp add: handleBlockClick_def sampleState_def includes_arr_def)
  have session: "highScore (run sampleConstants
         [BlockClick ''b'', SelectionCheck sampleFresh 0, Reset] (sampleState Classic [])) = Some 10"
    using after by (simp add: run_def click resetGame_def)
  from t [THEN conjunct1] before after session show ?thesis
    by (intro conjI)
qed

subsection \<open>C8: toggling a block\<close>

text \<open>
  Claim C8. For every state and block id: while playing, a click on a selected id
  removes it from \<open>selectedIds\<close> (the other ids keep their order) and a click on an
  id that is not selected appends it at the end, and nothing but \<open>selectedIds\<close>
  changes; when the status is not \<^verbatim>\<open>playing\<close> the click leaves the whole state
  unchanged.
\<close>

theorem handleBlockClick_toggles:
  "(status s = Playing \<and> i \<in> set (selectedIds s) \<longrightarrow>
      selectedIds (handleBlockClick i s) = removeAll i (selectedIds s)
      \<and> i \<notin> set (selectedIds (handleBlockClick i s)))
   \<and> (status s = Playing \<and> i \<notin> set (selectedIds s) \<longrightarrow>
      selectedIds (handleBlockClick i s) = selectedIds s @ [i])
   \<and> (status s = Playing \<longrightarrow>
      handleBlockClick i s = s\<lparr>selectedIds := selectedIds (handleBlockClick i s)\<rparr>)
   \<and> (status s \<noteq> Playing \<longrightarrow> handleBlockClick i s = s)"
  by (auto simp: handleBlockClick_def includes_arr_iff filter_neq_removeAll)

theorem handleBlockClick_toggles_witness:
  "selectedIds (handleBlockClick ''a'' (sampleState Classic [''a'', ''c''])) = [''c'']
   \<and> selectedIds (handleBlockClick ''b'' (sampleState Classic [''a'', ''c''])) = [''a'', ''c'', ''b'']
   \<and> handleBlockClick ''b'' ((sampleState Classic [''a''])\<lparr>status := Paused\<rparr>)
        = (sampleState Classic [''a''])\<lparr>status := Paused\<rparr>"
  using handleBlockClick_toggles [of "sampleState Classic [''a'', ''c'']" "''a''"]
        handleBlockClick_toggles [of "sampleState Classic [''a'', ''c'']" "''b''"]
        handleBlockClick_toggles [of "(sampleState Classic [''a''])\<lparr>status := Paused\<rparr>" "''b''"]
  by (simp add: sampleState_def)

subsection \<open>C9: stale ids in the selection\<close>

text \<open>
  Claim C9. The selection sum is a total function of the selection and the block
  list: there is no failing branch, a selected id without a block is looked up as
  \<^verbatim>\<open>undefined\<close> and counted as 0. For every selection and block list the sum equals
  the sum, over the selected ids, of the value of the block that the id matches (the
  first one with that id) and of 0 for an id that matches no block; removing a stale
  id from anywhere in the selection does not change the sum; and a selection of
  stale ids only sums to 0.
\<close>

theorem currentSum_tolerates_stale_ids:
  "currentSum ids bs
     = sum_list (map (\<lambda>i. if i \<in> id_b ` set bs then hd (valuesOf i bs) else 0) ids)
   \<and> (i \<notin> id_b ` set bs \<longrightarrow> currentSum (xs @ i # ys) bs = currentSum (xs @ ys) bs)
   \<and> (set ids \<inter> id_b ` set bs = {} \<longrightarrow> currentSum ids bs = 0)"
proof -
  have pt: "(case valuesOf j bs of [] \<Rightarrow> 0 | v # _ \<Rightarrow> v)
      = (if j \<in> id_b ` set bs then hd (valuesOf j bs) else 0)" for j
    using valuesOf_Nil_iff [of j bs] by (cases "valuesOf j bs") auto
  have a: "currentSum ids bs
     = sum_list (map (\<lambda>i. if i \<in> id_b ` set bs then hd (valuesOf i bs) else 0) ids)" for ids
    by (simp add: currentSum_sum_list pt)
  have b: "i \<notin> id_b ` set bs \<longrightarrow> currentSum (xs @ i # ys) bs = currentSum (xs @ ys) bs"
    by (simp add: a)
  have c: "set ids \<inter> id_b ` set bs = {} \<longrightarrow> currentSum ids bs = 0"
  proof
    assume d: "set ids \<inter> id_b ` set bs = {}"
    have "sum_list (map (\<lambda>i. if i \<in> id_b ` set bs then hd (valuesOf i bs) else 0) ids)
        = sum_list (map (\<lambda>i. 0) ids)"
      using d by (intro arg_cong [where f = sum_list] map_cong) auto
    also have "\<dots> = 0" by simp
    finally show "currentSum ids bs = 0" by (simp only: a)
  qed
  show ?thesis by (intro conjI a b c)
qed

theorem currentSum_tolerates_stale_ids_witness:
  "''zz'' \<notin> id_b ` set sampleBlocks
   \<and> currentSum [''a'', ''zz'', ''c''] sampleBlocks = 5
   \<and> currentSum [''a'', ''c''] sampleBlocks = 5
   \<and> currentSum [''zz''] sampleBlocks = 0"
proof -
  have st: "''zz'' \<notin> id_b ` set sampleBlocks"
    by (simp add: sampleBlocks_def mkBlock_def)
  have e: "currentSum [''a'', ''c''] sampleBlocks = 5"
    by (simp add: currentSum_def sampleBlocks_def mkBlock_def)
  note t = currentSum_tolerates_stale_ids [of "[''zz'']" sampleBlocks "''zz''" "[''a'']" "[''c'']"]
  from t [THEN conjunct2, THEN conjunct1] st e
  have "currentSum [''a'', ''zz'', ''c''] sampleBlocks = 5" by simp
  moreover from t [THEN conjunct2, THEN conjunct2] st
  have "currentSum [''zz''] sampleBlocks = 0" by simp
  ultimately show ?thesis using st e by (intro conjI)
qed

subsection \<open>C10: blocks outside the selection do not matter\<close>

text \<open>
  Claim C10. If two block lists agree on the selected blocks, that is, for every
  selected id the blocks carrying that id have the same values in both lists, then
  the selection check computes the same sum and gives the same signal on both. In
  particular, inserting or removing a block whose id is not selected, at any place
  of the list, changes neither the sum nor the signal.
\<close>

theorem evaluate_noninterference:
  "((\<forall>i \<in> set ids. valuesOf i bs1 = valuesOf i bs2) \<longrightarrow>
       currentSum ids bs1 = currentSum ids bs2 \<and> evaluate ids bs1 t = evaluate ids bs2 t)
   \<and> (id_b b \<notin> set ids \<longrightarrow>
       currentSum ids (xs @ b # ys) = currentSum ids (xs @ ys)
       \<and> evaluate ids (xs @ b # ys) t = evaluate ids (xs @ ys) t)"
  using currentSum_agree [of ids bs1 bs2]
        currentSum_agree [OF valuesOf_unselected, of b ids xs ys]
  by (auto intro: evaluate_cong)

theorem evaluate_noninterference_witness:
  "list_all (\<lambda>i. valuesOf i sampleBlocks
        = valuesOf i [mkBlock ''c'' 2 4 4, mkBlock ''x'' 9 0 0, mkBlock ''a'' 3 1 1])
      [''a'', ''c'']
   \<and> evaluate [''a'', ''c''] [mkBlock ''c'' 2 4 4, mkBlock ''x'' 9 0 0, mkBlock ''a'' 3 1 1] 5 = Success
   \<and> id_b (mkBlock ''x'' 9 0 0) \<notin> set [''a'', ''c'']
   \<and> evaluate [''a'', ''c''] [mkBlock ''c'' 2 4 4, mkBlock ''a'' 3 1 1] 5 = Success"
proof -
  let ?bs = "[mkBlock ''c'' 2 4 4, mkBlock ''x'' 9 0 0, mkBlock ''a'' 3 1 1]"
  have h: "\<forall>i \<in> set [''a'', ''c'']. valuesOf i sampleBlocks = valuesOf i ?bs"
    by (simp add: valuesOf_def sampleBlocks_def mkBlock_def)
  have u: "id_b (mkBlock ''x'' 9 0 0) \<notin> set [''a'', ''c'']"
    by (simp add: mkBlock_def)
  have e: "evaluate [''a'', ''c''] sampleBlocks 5 = Success"
    by (simp add: evaluate_def currentSum_def sampleBlocks_def mkBlock_def)
  note t = evaluate_noninterference [of "[''a'', ''c'']" sampleBlocks ?bs 5
              "mkBlock ''x'' 9 0 0" "[mkBlock ''c'' 2 4 4]" "[mkBlock ''a'' 3 1 1]"]
  from t [THEN conjunct1] h e have a: "evaluate [''a'', ''c''] ?bs 5 = Success"
    by simp
  from t [THEN conjunct2] u a
  have "evaluate [''a'', ''c''] [mkBlock ''c'' 2 4 4, mkBlock ''a'' 3 1 1] 5 = Success"
    by simp
  moreover from h have "list_all (\<lambda>i. valuesOf i sampleBlocks = valuesOf i ?bs) [''a'', ''c'']"
    by (simp only: list_all_iff)
  ultimately show ?thesis using a u by (intro conjI)
qed

end
